theory Spec2Isabelle
  imports Main "HOL-Library.Sublist" "HOL-Library.AList"
begin

section \<open>Text, whitespace and the pattern searches of the section extractor\<close>

text \<open>
  A Python \<open>str\<close> is a sequence of Unicode code points. It is modelled as a list of natural
  numbers, one per code point, so that every completion the backend can return is a value of
  the model. Program literals are written \<open>str ''...''\<close>.
\<close>

type_synonym py_str = "nat list"

abbreviation str :: "string \<Rightarrow> py_str" where
  "str s \<equiv> map of_char s"

text \<open>
  \<open>str.strip()\<close> without argument removes leading and trailing whitespace, that is the
  code points for which \<open>str.isspace\<close> holds.
\<close>

definition is_space :: "nat \<Rightarrow> bool" where
  "is_space c \<longleftrightarrow>
     (9 \<le> c \<and> c \<le> 13) \<or> (28 \<le> c \<and> c \<le> 32) \<or> c = 133 \<or> c = 160 \<or> c = 5760 \<or>
     (8192 \<le> c \<and> c \<le> 8202) \<or> c = 8232 \<or> c = 8233 \<or> c = 8239 \<or> c = 8287 \<or> c = 12288"

definition strip :: "py_str \<Rightarrow> py_str" where
  "strip s = rev (dropWhile is_space (rev (dropWhile is_space s)))"

text \<open>The closing delimiter of a fenced block, three backticks.\<close>

definition fence :: py_str where
  "fence = str ''```''"

text \<open>
  The lazy group \<open>(.*?)\<close> followed by a literal, under \<open>re.DOTALL\<close>: the group grows one
  code point at a time (any code point, line breaks included) until the literal follows;
  there is no match when the text ends first.
\<close>

fun lazy_until :: "py_str \<Rightarrow> py_str \<Rightarrow> py_str option" where
  "lazy_until lit [] = (if lit = [] then Some [] else None)"
| "lazy_until lit (c # cs) =
     (if prefix lit (c # cs) then Some []
      else map_option ((#) c) (lazy_until lit cs))"

text \<open>
  A match of \<open>```tag\n(.*?)```\<close> that starts at the head of the text; the result is
  group 1.
\<close>

definition match_fenced_at :: "py_str \<Rightarrow> py_str \<Rightarrow> py_str option" where
  "match_fenced_at opener s =
     (if prefix opener s then lazy_until fence (drop (length opener) s) else None)"

text \<open>\<open>re.search\<close> tries the start positions from left to right and keeps the first match.\<close>

fun search_fenced :: "py_str \<Rightarrow> py_str \<Rightarrow> py_str option" where
  "search_fenced opener [] = match_fenced_at opener []"
| "search_fenced opener (c # cs) =
     (case match_fenced_at opener (c # cs) of
        Some g \<Rightarrow> Some g
      | None \<Rightarrow> search_fenced opener cs)"

definition mermaid_opener :: py_str where
  "mermaid_opener = str ''```mermaid\<newline>''"

definition sql_opener :: py_str where
  "sql_opener = str ''```sql\<newline>''"

definition heading_line :: py_str where
  "heading_line = str ''## Design Explanation\<newline>''"

definition next_section :: py_str where
  "next_section = str ''\<newline>##''"

text \<open>
  The lazy group of \<open>(.*?)(?=\n##|\Z)\<close>: it stops in front of the first line break that is
  followed by two hash signs, or at the end of the text. It always matches.
\<close>

fun lazy_until_section :: "py_str \<Rightarrow> py_str" where
  "lazy_until_section [] = []"
| "lazy_until_section (c # cs) =
     (if prefix next_section (c # cs) then [] else c # lazy_until_section cs)"

definition match_explanation_at :: "py_str \<Rightarrow> py_str option" where
  "match_explanation_at s =
     (if prefix heading_line s then Some (lazy_until_section (drop (length heading_line) s))
      else None)"

fun search_explanation :: "py_str \<Rightarrow> py_str option" where
  "search_explanation [] = match_explanation_at []"
| "search_explanation (c # cs) =
     (case match_explanation_at (c # cs) of
        Some g \<Rightarrow> Some g
      | None \<Rightarrow> search_explanation cs)"

text \<open>
  \<open>response.split('```')\<close>: the text is scanned from the left, every delimiter found closes
  the current part and the scan goes on behind it. The first argument is the part read
  so far.
\<close>

function split_fence :: "py_str \<Rightarrow> py_str \<Rightarrow> py_str list" where
  "split_fence cur [] = [cur]"
| "split_fence cur (c # cs) =
     (if prefix fence (c # cs) then cur # split_fence [] (drop (length fence) (c # cs))
      else split_fence (cur @ [c]) cs)"
  by pat_completeness auto
termination
  by (relation "measure (\<lambda>(cur, s). length s)") (auto simp: fence_def)

section \<open>Exceptions and dictionaries\<close>

datatype py_exception =
    HTTPException nat py_str
  | IndexError
  | KeyError string
  | ValidationError

text \<open>\<open>parts[-1]\<close> raises on an empty list.\<close>

fun py_last :: "'a list \<Rightarrow> py_exception + 'a" where
  "py_last [] = Inl IndexError"
| "py_last (x # xs) = Inr (last (x # xs))"

text \<open>
  A \<open>dict\<close> with string keys, in insertion order. Assignment to a key replaces the value
  in place or appends the key; \<open>d.get(k, default)\<close> gives the default only when the key is
  not in the dictionary.
\<close>

type_synonym py_dict = "(string \<times> py_str) list"

definition dict_set :: "py_dict \<Rightarrow> string \<Rightarrow> py_str \<Rightarrow> py_dict" where
  "dict_set d k v = AList.update k v d"

definition dict_get :: "py_dict \<Rightarrow> string \<Rightarrow> py_str \<Rightarrow> py_str" where
  "dict_get d k dflt = (case map_of d k of Some v \<Rightarrow> v | None \<Rightarrow> dflt)"

section \<open>The prompt builder\<close>

definition prompt_intro :: py_str where
  "prompt_intro =
     str ''You are an expert database architect. Based on the following application description, design a complete database schema.\<newline>'' @
     str ''\<newline>'' @
     str ''Application Description: ''"

definition prompt_before_type :: py_str where
  "prompt_before_type =
     str ''\<newline>'' @
     str ''Database Type: ''"

definition prompt_format :: py_str where
  "prompt_format =
     str ''\<newline>'' @
     str ''\<newline>'' @
     str ''Please provide your response in exactly this format:\<newline>'' @
     str ''\<newline>'' @
     str ''## ERD (Mermaid)\<newline>'' @
     str ''```mermaid\<newline>'' @
     str ''erDiagram\<newline>'' @
     str ''    [Your Entity Relationship Diagram here using Mermaid syntax]\<newline>'' @
     str ''```\<newline>'' @
     str ''\<newline>'' @
     str ''## SQL Queries\<newline>'' @
     str ''```sql\<newline>'' @
     str ''-- Your CREATE TABLE statements here\<newline>'' @
     str ''-- Include primary keys, foreign keys, indexes, and constraints\<newline>'' @
     str ''-- Use MySQL-specific syntax and data types (INT AUTO_INCREMENT, VARCHAR, etc.)\<newline>'' @
     str ''-- Include ENGINE=InnoDB and CHARACTER SET specifications\<newline>'' @
     str ''```\<newline>'' @
     str ''\<newline>'' @
     str ''## Design Explanation\<newline>'' @
     str ''Provide a detailed explanation of:\<newline>'' @
     str ''1. Why you chose this schema design\<newline>'' @
     str ''2. Relationships between tables and their reasoning\<newline>'' @
     str ''3. Key design decisions (normalization level, indexing strategy, etc.)\<newline>'' @
     str ''4. Scalability considerations\<newline>'' @
     str ''5. Any assumptions made about the requirements\<newline>'' @
     str ''\<newline>'' @
     str ''Focus on best practices for ''"

definition prompt_closing :: py_str where
  "prompt_closing =
     str '' and ensure the design is normalized, efficient, and scalable.''"

definition create_database_design_prompt :: "py_str \<Rightarrow> py_str \<Rightarrow> py_str" where
  "create_database_design_prompt description db_type =
     prompt_intro @ description @ prompt_before_type @ db_type @ prompt_format @ db_type @
     prompt_closing"

section \<open>The section extractor\<close>

definition extract_sections :: "py_str \<Rightarrow> py_exception + py_dict" where
  "extract_sections response =
     (let sections = [(''erd_mermaid'', []), (''sql_queries'', []), (''explanation'', [])];
          sections = (case search_fenced mermaid_opener response of
                        Some g \<Rightarrow> dict_set sections ''erd_mermaid'' (strip g)
                      | None \<Rightarrow> sections);
          sections = (case search_fenced sql_opener response of
                        Some g \<Rightarrow> dict_set sections ''sql_queries'' (strip g)
                      | None \<Rightarrow> sections)
      in case search_explanation response of
           Some g \<Rightarrow> Inr (dict_set sections ''explanation'' (strip g))
         | None \<Rightarrow>
             (let parts = split_fence [] response
              in if 5 \<le> length parts
                 then (case py_last parts of
                         Inl e \<Rightarrow> Inl e
                       | Inr p \<Rightarrow> Inr (dict_set sections ''explanation'' (strip p)))
                 else Inr sections))"

section \<open>The endpoints\<close>

record DatabaseRequest =
  description :: py_str
  database_type :: py_str

record DatabaseResponse =
  erd_mermaid :: py_str
  sql_queries :: py_str
  explanation :: py_str

definition MODEL_NAME :: py_str where
  "MODEL_NAME = str ''codellama:7b''"

text \<open>
  The inference backend is a parameter: \<open>post model prompt\<close> is what the HTTP request of
  \<open>query_ollama\<close> comes to, either the text of a \<open>RequestException\<close> (\<open>Inl\<close>) or the
  \<open>response\<close> entry of the reply (\<open>Inr\<close>).
\<close>

type_synonym backend = "py_str \<Rightarrow> py_str \<Rightarrow> py_str + py_str"

definition query_ollama :: "backend \<Rightarrow> py_str \<Rightarrow> py_exception + py_str" where
  "query_ollama post prompt =
     (case post MODEL_NAME prompt of
        Inl msg \<Rightarrow> Inl (HTTPException 500 (str ''Error communicating with Ollama: '' @ msg))
      | Inr text \<Rightarrow> Inr text)"

text \<open>
  \<open>DatabaseResponse(**sections)\<close>: the three fields are required, other keys are ignored.
\<close>

definition response_of_dict :: "py_dict \<Rightarrow> py_exception + DatabaseResponse" where
  "response_of_dict d =
     (case (map_of d ''erd_mermaid'', map_of d ''sql_queries'', map_of d ''explanation'') of
        (Some e, Some q, Some x) \<Rightarrow>
          Inr \<lparr>erd_mermaid = e, sql_queries = q, explanation = x\<rparr>
      | _ \<Rightarrow> Inl ValidationError)"

text \<open>The body of the \<open>try\<close> block of \<open>design_database\<close>.\<close>

definition design_database_try :: "backend \<Rightarrow> DatabaseRequest \<Rightarrow> py_exception + DatabaseResponse" where
  "design_database_try post request =
     (let prompt = create_database_design_prompt (description request) (database_type request)
      in case query_ollama post prompt of
           Inl e \<Rightarrow> Inl e
         | Inr response \<Rightarrow>
             if response = [] then Inl (HTTPException 500 (str ''Empty response from LLM''))
             else (case extract_sections response of
                     Inl e \<Rightarrow> Inl e
                   | Inr sections \<Rightarrow>
                       (let missing_sections = map fst (filter (\<lambda>(k, v). strip v = []) sections)
                        in if missing_sections \<noteq> []
                           then Inr \<lparr>erd_mermaid = dict_get sections ''erd_mermaid''
                                        (str ''Could not extract Mermaid diagram''),
                                     sql_queries = dict_get sections ''sql_queries''
                                        (str ''Could not extract SQL queries''),
                                     explanation = dict_get sections ''explanation'' response\<rparr>
                           else response_of_dict sections)))"

text \<open>
  \<open>except Exception as e\<close> turns every exception of the body into a status 500 whose detail
  ends with \<open>str(e)\<close>. How an exception prints is the library's business and a parameter
  here.
\<close>

definition design_database ::
    "(py_exception \<Rightarrow> py_str) \<Rightarrow> backend \<Rightarrow> DatabaseRequest \<Rightarrow> py_exception + DatabaseResponse" where
  "design_database exc_str post request =
     (case design_database_try post request of
        Inl e \<Rightarrow> Inl (HTTPException 500 (str ''Error generating database design: '' @ exc_str e))
      | Inr r \<Rightarrow> Inr r)"

text \<open>
  \<open>get_available_models\<close>: the query of the backend's model list either fails with a
  \<open>RequestException\<close> or gives the list of model entries, each with or without a
  \<open>name\<close>.
\<close>

datatype tags_outcome = TagsRequestFailed | TagsReply "py_str option list"

datatype models_reply = AvailableModels "py_str list" | ModelsError py_str

fun model_names :: "py_str option list \<Rightarrow> py_exception + py_str list" where
  "model_names [] = Inr []"
| "model_names (None # ms) = Inl (KeyError ''name'')"
| "model_names (Some n # ms) =
     (case model_names ms of Inl e \<Rightarrow> Inl e | Inr ns \<Rightarrow> Inr (n # ns))"

definition get_available_models :: "tags_outcome \<Rightarrow> py_exception + models_reply" where
  "get_available_models outcome =
     (case outcome of
        TagsRequestFailed \<Rightarrow>
          Inr (ModelsError (str ''Could not connect to Ollama. Make sure it's running.''))
      | TagsReply models \<Rightarrow>
          (case model_names models of
             Inl e \<Rightarrow> Inl e
           | Inr names \<Rightarrow> Inr (AvailableModels names)))"

section \<open>Notions used to state the properties\<close>

text \<open>
  The value the extractor binds to a key, \<open>None\<close> when the extractor raises or the key is
  not in its result.
\<close>

definition section_value :: "string \<Rightarrow> py_str \<Rightarrow> py_str option" where
  "section_value k response =
     (case extract_sections response of Inl e \<Rightarrow> None | Inr d \<Rightarrow> map_of d k)"

text \<open>
  A fenced block tagged with a language, as the specification words it: a region that an
  opening line delimits, the fence and the tag with nothing but blanks (space, tab,
  carriage return) up to its line break, and that the next fence closes.
  \<open>first_tagged_block tag r\<close> is the interior of the first such block of \<open>r\<close>, and
  \<open>field_as_stated tag r\<close> the field stated for it: the trimmed interior, or the empty
  text when there is no such block.
\<close>

definition is_blank :: "nat \<Rightarrow> bool" where
  "is_blank c \<longleftrightarrow> c = 32 \<or> c = 9 \<or> c = 13"

definition tagged_block_at :: "py_str \<Rightarrow> py_str \<Rightarrow> py_str option" where
  "tagged_block_at tag s =
     (if prefix (fence @ tag) s
      then (case dropWhile is_blank (drop (length (fence @ tag)) s) of
              [] \<Rightarrow> None
            | c # t \<Rightarrow> if c = 10 then lazy_until fence t else None)
      else None)"

fun first_tagged_block :: "py_str \<Rightarrow> py_str \<Rightarrow> py_str option" where
  "first_tagged_block tag [] = None"
| "first_tagged_block tag (c # cs) =
     (case tagged_block_at tag (c # cs) of
        Some b \<Rightarrow> Some b
      | None \<Rightarrow> first_tagged_block tag cs)"

definition field_as_stated :: "py_str \<Rightarrow> py_str \<Rightarrow> py_str" where
  "field_as_stated tag r = (case first_tagged_block tag r of Some b \<Rightarrow> strip b | None \<Rightarrow> [])"

text \<open>The heading of the explanation, without its line break.\<close>

definition heading :: py_str where
  "heading = str ''## Design Explanation''"

text \<open>
  The explanation as the specification words it: the text behind the first heading up to
  the next heading of the same level, a line that starts with exactly two hash signs, or
  up to the end of the text; trimmed.
\<close>

definition same_level_heading_follows :: "py_str \<Rightarrow> bool" where
  "same_level_heading_follows s \<longleftrightarrow>
     prefix (str ''\<newline>##'') s \<and> \<not> prefix (str ''\<newline>###'') s"

fun upto_same_level_heading :: "py_str \<Rightarrow> py_str" where
  "upto_same_level_heading [] = []"
| "upto_same_level_heading (c # cs) =
     (if same_level_heading_follows (c # cs) then [] else c # upto_same_level_heading cs)"

fun text_after_heading :: "py_str \<Rightarrow> py_str option" where
  "text_after_heading [] = None"
| "text_after_heading (c # cs) =
     (if prefix heading (c # cs) then Some (drop (length heading) (c # cs))
      else text_after_heading cs)"

definition explanation_as_stated :: "py_str \<Rightarrow> py_str option" where
  "explanation_as_stated r =
     map_option (strip \<circ> upto_same_level_heading) (text_after_heading r)"

text \<open>
  A completion in the output format of the prompt template, with the three contents put
  in the places of the template's own.
\<close>

definition template_completion :: "py_str \<Rightarrow> py_str \<Rightarrow> py_str \<Rightarrow> py_str" where
  "template_completion X Y Z =
     str ''## ERD (Mermaid)\<newline>'' @
     str ''```mermaid\<newline>'' @
     X @ str ''\<newline>'' @
     str ''```\<newline>'' @
     str ''\<newline>'' @
     str ''## SQL Queries\<newline>'' @
     str ''```sql\<newline>'' @
     Y @ str ''\<newline>'' @
     str ''```\<newline>'' @
     str ''\<newline>'' @
     str ''## Design Explanation\<newline>'' @
     Z"

text \<open>
  The two fence tags of the template (\<open>heading\<close> is the third marker), and the number of
  positions of a text at which a (non-empty) pattern starts.
\<close>

definition mermaid_tag :: py_str where
  "mermaid_tag = str ''```mermaid''"

definition sql_tag :: py_str where
  "sql_tag = str ''```sql''"

fun count_occ :: "py_str \<Rightarrow> py_str \<Rightarrow> nat" where
  "count_occ pat [] = 0"
| "count_occ pat (c # cs) = (if prefix pat (c # cs) then 1 else 0) + count_occ pat cs"

text \<open>\<open>'```'.join(parts)\<close>, the inverse of the split.\<close>

fun join_fence :: "py_str list \<Rightarrow> py_str" where
  "join_fence [] = []"
| "join_fence [p] = p"
| "join_fence (p # q # ps) = p @ fence @ join_fence (q # ps)"

section \<open>Notions used in the proofs\<close>

text \<open>
  An occurrence of \<open>p\<close> straddles the border between \<open>xs\<close> and \<open>ys\<close> when it starts in
  \<open>xs\<close> and ends in \<open>ys\<close>. No occurrence can straddle a border behind which \<open>w\<close> stands
  when \<open>starts_clear p w\<close> holds, nor one in front of which \<open>w\<close> stands when
  \<open>ends_clear p w\<close> holds.
\<close>

definition straddles :: "py_str \<Rightarrow> py_str \<Rightarrow> py_str \<Rightarrow> bool" where
  "straddles p xs ys \<longleftrightarrow>
     (\<exists>u v. p = u @ v \<and> u \<noteq> [] \<and> v \<noteq> [] \<and> suffix u xs \<and> prefix v ys)"

definition starts_clear :: "py_str \<Rightarrow> py_str \<Rightarrow> bool" where
  "starts_clear p w \<longleftrightarrow>
     (\<forall>v\<in>set (suffixes p). v \<noteq> [] \<longrightarrow> \<not> prefix v w \<and> \<not> prefix w v)"

definition ends_clear :: "py_str \<Rightarrow> py_str \<Rightarrow> bool" where
  "ends_clear p w \<longleftrightarrow>
     (\<forall>u\<in>set (prefixes p). u \<noteq> [] \<longrightarrow> \<not> suffix u w \<and> \<not> suffix w u)"

text \<open>Every text of the list but the last one ends with \<open>c\<close>.\<close>

fun lines_end_with :: "nat \<Rightarrow> py_str list \<Rightarrow> bool" where
  "lines_end_with c [] = True"
| "lines_end_with c [l] = True"
| "lines_end_with c (l # l' # ls) = (l \<noteq> [] \<and> last l = c \<and> lines_end_with c (l' # ls))"

text \<open>The lines of \<open>prompt_format\<close>.\<close>

definition prompt_format_lines :: "py_str list" where
  "prompt_format_lines =
    [str ''\<newline>'',
     str ''\<newline>'',
     str ''Please provide your response in exactly this format:\<newline>'',
     str ''\<newline>'',
     str ''## ERD (Mermaid)\<newline>'',
     str ''```mermaid\<newline>'',
     str ''erDiagram\<newline>'',
     str ''    [Your Entity Relationship Diagram here using Mermaid syntax]\<newline>'',
     str ''```\<newline>'',
     str ''\<newline>'',
     str ''## SQL Queries\<newline>'',
     str ''```sql\<newline>'',
     str ''-- Your CREATE TABLE statements here\<newline>'',
     str ''-- Include primary keys, foreign keys, indexes, and constraints\<newline>'',
     str ''-- Use MySQL-specific syntax and data types (INT AUTO_INCREMENT, VARCHAR, etc.)\<newline>'',
     str ''-- Include ENGINE=InnoDB and CHARACTER SET specifications\<newline>'',
     str ''```\<newline>'',
     str ''\<newline>'',
     str ''## Design Explanation\<newline>'',
     str ''Provide a detailed explanation of:\<newline>'',
     str ''1. Why you chose this schema design\<newline>'',
     str ''2. Relationships between tables and their reasoning\<newline>'',
     str ''3. Key design decisions (normalization level, indexing strategy, etc.)\<newline>'',
     str ''4. Scalability considerations\<newline>'',
     str ''5. Any assumptions made about the requirements\<newline>'',
     str ''\<newline>'',
     str ''Focus on best practices for '']"

section \<open>Evaluation and basic facts\<close>

lemmas pattern_defs = mermaid_opener_def sql_opener_def heading_line_def next_section_def fence_def

lemmas tag_defs = mermaid_tag_def sql_tag_def heading_def

lemmas eval_defs = design_database_def design_database_try_def query_ollama_def
  extract_sections_def match_fenced_at_def match_explanation_at_def strip_def is_space_def
  dict_set_def dict_get_def response_of_dict_def

lemma split_fence_not_Nil: "split_fence cur s \<noteq> []"
  by (induction cur s rule: split_fence.induct) auto

lemma py_last_split_fence: "py_last (split_fence cur s) = Inr (last (split_fence cur s))"
  by (cases "split_fence cur s") (simp_all add: split_fence_not_Nil)

lemma extract_sections_fields:
  "extract_sections r =
     Inr [(''erd_mermaid'',
             case search_fenced mermaid_opener r of Some g \<Rightarrow> strip g | None \<Rightarrow> []),
          (''sql_queries'',
             case search_fenced sql_opener r of Some g \<Rightarrow> strip g | None \<Rightarrow> []),
          (''explanation'',
             case search_explanation r of
               Some g \<Rightarrow> strip g
             | None \<Rightarrow>
                 if 5 \<le> length (split_fence [] r) then strip (last (split_fence [] r))
                 else [])]"
  by (simp add: extract_sections_def dict_set_def py_last_split_fence Let_def
      split: option.splits)

lemma section_value_simps:
  "section_value ''erd_mermaid'' r =
     Some (case search_fenced mermaid_opener r of Some g \<Rightarrow> strip g | None \<Rightarrow> [])"
  "section_value ''sql_queries'' r =
     Some (case search_fenced sql_opener r of Some g \<Rightarrow> strip g | None \<Rightarrow> [])"
  "section_value ''explanation'' r =
     Some (case search_explanation r of
             Some g \<Rightarrow> strip g
           | None \<Rightarrow>
               if 5 \<le> length (split_fence [] r) then strip (last (split_fence [] r)) else [])"
  by (simp_all add: section_value_def extract_sections_fields)

text \<open>
  The split is faithful to the text: joining the parts with the fence gives the text
  back.
\<close>

lemma join_split_fence: "join_fence (split_fence cur s) = cur @ s"
proof (induction cur s rule: split_fence.induct)
  case (1 cur) show ?case by simp
next
  case (2 cur c cs)
  show ?case
  proof (cases "prefix fence (c # cs)")
    case True
    then obtain t where t: "c # cs = fence @ t" by (auto simp: prefix_def)
    then have d: "drop (length fence) (c # cs) = t" by (metis append_eq_conv_conj)
    obtain q ps where qps: "split_fence [] t = q # ps"
      using split_fence_not_Nil by (cases "split_fence [] t") auto
    have j: "join_fence (split_fence [] t) = t"
      using 2(1)[OF True] d by simp
    have "split_fence cur (c # cs) = cur # q # ps"
      using True d qps by simp
    then have "join_fence (split_fence cur (c # cs)) = cur @ fence @ join_fence (q # ps)"
      by simp
    also have "\<dots> = cur @ c # cs" using j qps t by simp
    finally show ?thesis .
  next
    case False
    with 2(2) show ?thesis by simp
  qed
qed

section \<open>Trimming and the pattern searches\<close>

lemma strip_append_space:
  assumes "\<forall>c\<in>set w. is_space c"
  shows "strip (s @ w) = strip s"
proof (cases "\<forall>c\<in>set s. is_space c")
  case True
  with assms have "dropWhile is_space (s @ w) = []" "dropWhile is_space s = []"
    by (simp_all add: dropWhile_eq_Nil_conv ball_Un)
  then show ?thesis by (simp only: strip_def)
next
  case False
  then have "dropWhile is_space (s @ w) = dropWhile is_space s @ w"
    by (auto simp: dropWhile_append)
  moreover have "dropWhile is_space (rev w @ t) = dropWhile is_space t" for t
    using assms by (simp add: dropWhile_append)
  ultimately show ?thesis by (simp add: strip_def)
qed

lemma strip_line: "strip X = X \<Longrightarrow> strip (X @ [10]) = X"
  using strip_append_space[of "[10]" X] by (simp add: is_space_def)

lemma prefix_into_butlast:
  assumes "prefix p (ys @ p @ rest)" "ys \<noteq> []"
  shows "prefix p (ys @ butlast p)"
proof -
  have "length p \<le> length (ys @ butlast p)" using assms(2) by (cases ys) auto
  then have "take (length p) (ys @ p @ rest) = take (length p) (ys @ butlast p)"
    by (cases p rule: rev_cases) (auto simp: butlast_append)
  moreover from assms(1) have "take (length p) (ys @ p @ rest) = p"
    by (metis append_eq_conv_conj prefix_def)
  ultimately show ?thesis
    by (metis take_is_prefix)
qed

lemma prefix_from_butlast:
  assumes "prefix p (ys @ butlast p)"
  shows "prefix p (ys @ p @ rest)"
proof -
  have "prefix (butlast p) (p @ rest)"
    by (meson prefix_order.trans prefixeq_butlast prefix_prefix prefix_order.refl)
  then have "prefix (ys @ butlast p) (ys @ p @ rest)" by simp
  with assms show ?thesis by (rule prefix_order.trans)
qed

lemma prefix_before_sep:
  "c \<notin> set q \<Longrightarrow> prefix q (ys @ c # rest) \<Longrightarrow> prefix q ys"
  by (auto simp: prefix_append prefix_Cons)

lemma sublist_past_sep:
  assumes "c \<notin> set q" "q \<noteq> []" "prefix q p" "\<not> sublist q X"
    and "sublist p (X @ c # rest)"
  shows "sublist p rest"
  using assms(4,5)
proof (induction X)
  case Nil
  have "\<not> prefix p (c # rest)"
  proof
    assume "prefix p (c # rest)"
    with assms(3) have "prefix q (c # rest)" by (rule prefix_order.trans)
    with assms(1,2) show False by (auto simp: prefix_Cons)
  qed
  with Nil show ?case by (simp add: sublist_Cons_right)
next
  case (Cons x X)
  have "\<not> prefix p (x # X @ c # rest)"
  proof
    assume "prefix p (x # X @ c # rest)"
    with assms(3) have "prefix q ((x # X) @ c # rest)" using prefix_order.trans by fastforce
    with assms(1) have "prefix q (x # X)" by (rule prefix_before_sep)
    with Cons.prems(1) show False by (auto dest: prefix_imp_sublist)
  qed
  moreover have "\<not> sublist q X" using Cons.prems(1) by (auto simp: sublist_Cons_right)
  ultimately show ?case using Cons by (simp add: sublist_Cons_right)
qed

subsection \<open>The lazy group in front of a literal\<close>

lemma lazy_until_Some_decomp:
  "lazy_until lit s = Some g \<Longrightarrow> \<exists>rest. s = g @ lit @ rest"
proof (induction s arbitrary: g)
  case Nil then show ?case by (auto split: if_splits)
next
  case (Cons c cs)
  show ?case
  proof (cases "prefix lit (c # cs)")
    case True with Cons.prems show ?thesis by (auto simp: prefix_def)
  next
    case False
    with Cons.prems obtain g' where "lazy_until lit cs = Some g'" "g = c # g'" by auto
    with Cons.IH show ?thesis by auto
  qed
qed

lemma lazy_until_first:
  assumes "lit \<noteq> []" "\<not> sublist lit (body @ butlast lit)"
  shows "lazy_until lit (body @ lit @ rest) = Some body"
  using assms(2)
proof (induction body)
  case Nil
  obtain c cs where "lit @ rest = c # cs" using assms(1) by (cases lit) auto
  moreover have "prefix lit (lit @ rest)" by simp
  ultimately show ?case by simp
next
  case (Cons b body)
  have "\<not> prefix lit ((b # body) @ lit @ rest)"
    using Cons.prems prefix_into_butlast[of lit "b # body" rest]
    by (auto dest: prefix_imp_sublist)
  moreover have "\<not> sublist lit (body @ butlast lit)"
    using Cons.prems by (auto simp: sublist_Cons_right)
  ultimately show ?case using Cons.IH by simp
qed

lemma lazy_until_None:
  "\<not> sublist lit s \<Longrightarrow> lit \<noteq> [] \<Longrightarrow> lazy_until lit s = None"
  by (induction s) (auto simp: sublist_Cons_right)

lemma lazy_until_finds:
  "lit \<noteq> [] \<Longrightarrow> sublist lit s \<Longrightarrow> lazy_until lit s \<noteq> None"
  by (induction s) (auto simp: sublist_Cons_right)

lemma lazy_until_shortest:
  "lit \<noteq> [] \<Longrightarrow> lazy_until lit s = Some g \<Longrightarrow> \<not> sublist lit (g @ butlast lit)"
proof (induction s arbitrary: g)
  case Nil then show ?case by (auto split: if_splits)
next
  case (Cons c cs)
  show ?case
  proof (cases "prefix lit (c # cs)")
    case True
    with Cons.prems have "g = []" by simp
    moreover have "\<not> sublist lit (butlast lit)"
      using Cons.prems(1) by (cases lit) (auto dest!: sublist_length_le)
    ultimately show ?thesis by simp
  next
    case False
    with Cons.prems obtain g' where g': "lazy_until lit cs = Some g'" "g = c # g'" by auto
    from g'(1) obtain rest where cs: "cs = g' @ lit @ rest"
      using lazy_until_Some_decomp by blast
    have "\<not> prefix lit (c # g' @ butlast lit)"
    proof
      assume "prefix lit (c # g' @ butlast lit)"
      then have "prefix lit ((c # g') @ lit @ rest)"
        using prefix_from_butlast[of lit "c # g'" rest] by simp
      with False cs show False by simp
    qed
    moreover have "\<not> sublist lit (g' @ butlast lit)"
      using Cons.IH[OF Cons.prems(1) g'(1)] .
    ultimately show ?thesis by (simp add: g'(2) sublist_Cons_right)
  qed
qed

subsection \<open>The search for a fenced block\<close>

lemma search_fenced_Some_decomp:
  "search_fenced opener r = Some g \<Longrightarrow> \<exists>pre rest. r = pre @ opener @ g @ fence @ rest"
proof (induction r)
  case Nil
  then show ?case
    by (auto simp: match_fenced_at_def split: if_splits dest!: lazy_until_Some_decomp)
next
  case (Cons c cs)
  show ?case
  proof (cases "match_fenced_at opener (c # cs)")
    case None
    with Cons obtain pre rest where "cs = pre @ opener @ g @ fence @ rest" by auto
    then have "c # cs = (c # pre) @ opener @ g @ fence @ rest" by simp
    then show ?thesis by blast
  next
    case (Some g')
    with Cons.prems have g: "g' = g" by simp
    from Some have "prefix opener (c # cs)" "lazy_until fence (drop (length opener) (c # cs)) = Some g'"
      by (auto simp: match_fenced_at_def split: if_splits)
    then obtain rest where "c # cs = opener @ g' @ fence @ rest"
      by (metis lazy_until_Some_decomp append_eq_conv_conj prefix_def)
    then have "c # cs = [] @ opener @ g @ fence @ rest" using g by simp
    then show ?thesis by blast
  qed
qed

lemma search_fenced_first:
  assumes "\<not> sublist opener (pre @ butlast opener)"
    and "match_fenced_at opener (opener @ s) = Some g"
  shows "search_fenced opener (pre @ opener @ s) = Some g"
  using assms(1)
proof (induction pre)
  case Nil
  show ?case using assms(2) by (cases "opener @ s") (auto)
next
  case (Cons b pre)
  have "\<not> prefix opener ((b # pre) @ opener @ s)"
    using Cons.prems prefix_into_butlast[of opener "b # pre" s]
    by (auto dest: prefix_imp_sublist)
  then have "match_fenced_at opener (b # pre @ opener @ s) = None"
    by (simp add: match_fenced_at_def)
  moreover have "\<not> sublist opener (pre @ butlast opener)"
    using Cons.prems by (auto simp: sublist_Cons_right)
  ultimately show ?case using Cons.IH by simp
qed

lemma search_fenced_block:
  assumes "\<not> sublist opener (pre @ butlast opener)" "\<not> sublist fence (body @ butlast fence)"
  shows "search_fenced opener (pre @ opener @ body @ fence @ rest) = Some body"
proof -
  have "fence \<noteq> []" by (simp add: fence_def)
  then have "match_fenced_at opener (opener @ body @ fence @ rest) = Some body"
    using assms(2) by (simp add: match_fenced_at_def lazy_until_first)
  then show ?thesis using assms(1) by (rule search_fenced_first[rotated])
qed

lemma search_fenced_finds:
  "search_fenced opener (pre @ opener @ body @ fence @ rest) \<noteq> None"
proof (induction pre)
  case Nil
  have "lazy_until fence (body @ fence @ rest) \<noteq> None"
    by (rule lazy_until_finds) (simp add: fence_def, rule sublist_appendI)
  then have "match_fenced_at opener (opener @ body @ fence @ rest) \<noteq> None"
    by (simp add: match_fenced_at_def)
  then show ?case
    by (cases "opener @ body @ fence @ rest") (auto simp: fence_def split: option.splits)
next
  case (Cons c pre)
  then show ?case by (auto split: option.splits)
qed

subsection \<open>The search for the explanation\<close>

lemma lazy_until_section_all:
  "\<not> sublist next_section body \<Longrightarrow> lazy_until_section body = body"
  by (induction body) (auto simp: sublist_Cons_right)

lemma lazy_until_section_stop:
  assumes "\<not> sublist next_section (body @ butlast next_section)"
  shows "lazy_until_section (body @ next_section @ rest) = body"
  using assms
proof (induction body)
  case Nil
  have "\<exists>c cs. next_section @ rest = c # cs" by (simp add: next_section_def)
  then obtain c cs where "next_section @ rest = c # cs" by blast
  moreover have "prefix next_section (next_section @ rest)" by simp
  ultimately show ?case by simp
next
  case (Cons b body)
  have "\<not> prefix next_section ((b # body) @ next_section @ rest)"
    using Cons.prems prefix_into_butlast[of next_section "b # body" rest]
    by (auto dest: prefix_imp_sublist)
  moreover have "\<not> sublist next_section (body @ butlast next_section)"
    using Cons.prems by (auto simp: sublist_Cons_right)
  ultimately show ?case using Cons.IH by simp
qed

lemma search_explanation_None:
  "\<not> sublist heading_line r \<Longrightarrow> search_explanation r = None"
proof (induction r)
  case Nil then show ?case by (simp add: match_explanation_at_def heading_line_def)
next
  case (Cons c cs)
  then show ?case by (auto simp: match_explanation_at_def sublist_Cons_right)
qed

lemma search_explanation_first:
  assumes "\<not> sublist heading_line (pre @ butlast heading_line)"
  shows "search_explanation (pre @ heading_line @ s) = Some (lazy_until_section s)"
  using assms
proof (induction pre)
  case Nil
  have "\<exists>c cs. heading_line @ s = c # cs" by (simp add: heading_line_def)
  then obtain c cs where "heading_line @ s = c # cs" by blast
  moreover have "match_explanation_at (heading_line @ s) = Some (lazy_until_section s)"
    by (simp add: match_explanation_at_def)
  ultimately show ?case by simp
next
  case (Cons b pre)
  have "\<not> prefix heading_line ((b # pre) @ heading_line @ s)"
    using Cons.prems prefix_into_butlast[of heading_line "b # pre" s]
    by (auto dest: prefix_imp_sublist)
  then have "match_explanation_at (b # pre @ heading_line @ s) = None"
    by (simp add: match_explanation_at_def)
  moreover have "\<not> sublist heading_line (pre @ butlast heading_line)"
    using Cons.prems by (auto simp: sublist_Cons_right)
  ultimately show ?case using Cons.IH by simp
qed

section \<open>The extractor never raises\<close>

text \<open>
  C10. For every text, the empty one and those with unmatched or nested fences included,
  \<open>extract_sections\<close> returns (it does not raise) a dictionary whose keys are exactly
  \<open>erd_mermaid\<close>, \<open>sql_queries\<close> and \<open>explanation\<close>, each once and each bound to a text.
\<close>

theorem extract_sections_total:
  "\<exists>d. extract_sections r = Inr d \<and> distinct (map fst d) \<and>
       set (map fst d) = {''erd_mermaid'', ''sql_queries'', ''explanation''}"
  by (auto simp add: extract_sections_fields)

section \<open>The diagram and SQL fields\<close>

text \<open>
  C8. The value of a field is to be the trimmed interior of the first fenced block with
  its tag. The pattern of the extractor wants the line break at once behind the tag, so it
  misses a block whose opening line has a blank behind the tag, or ends with carriage
  return and line feed: the block is there, and the field is empty.
\<close>

theorem tagged_block_missed:
  "section_value ''sql_queries''
     (str ''```sql \<newline>CREATE TABLE t (id INT);\<newline>```'') = Some [] \<and>
   field_as_stated (str ''sql'')
     (str ''```sql \<newline>CREATE TABLE t (id INT);\<newline>```'')
     = str ''CREATE TABLE t (id INT);'' \<and>
   section_value ''erd_mermaid''
     (str ''```mermaid'' @ [13, 10] @ str ''erDiagram'' @ [13, 10] @ str ''```'') = Some [] \<and>
   field_as_stated (str ''mermaid'')
     (str ''```mermaid'' @ [13, 10] @ str ''erDiagram'' @ [13, 10] @ str ''```'')
     = str ''erDiagram''"
  by (simp add: section_value_def eval_defs pattern_defs field_as_stated_def
      tagged_block_at_def is_blank_def)

section \<open>The explanation field\<close>

text \<open>
  C6. When the heading line is not in the text, the value of \<open>explanation\<close> is the
  trimmed last part of the split on the fence if the split has at least five parts, and
  the empty text if it has fewer. A text without the heading has no heading line, so this
  covers every text in which the heading is absent.
\<close>

theorem explanation_without_heading:
  assumes "\<not> sublist heading_line r"
  shows "section_value ''explanation'' r =
           Some (if 5 \<le> length (split_fence [] r) then strip (last (split_fence [] r)) else [])"
  using assms by (simp add: section_value_simps search_explanation_None)

theorem explanation_without_heading_witness:
  "\<not> sublist heading_line (str ''```mermaid\<newline>A```and```sql\<newline>B``` Two tables. '') \<and>
   split_fence [] (str ''```mermaid\<newline>A```and```sql\<newline>B``` Two tables. '') =
     [[], str ''mermaid\<newline>A'', str ''and'', str ''sql\<newline>B'', str '' Two tables. ''] \<and>
   section_value ''explanation'' (str ''```mermaid\<newline>A```and```sql\<newline>B``` Two tables. '')
     = Some (str ''Two tables.'') \<and>
   \<not> sublist heading_line (str ''```sql\<newline>B``` Two tables. '') \<and>
   split_fence [] (str ''```sql\<newline>B``` Two tables. '') =
     [[], str ''sql\<newline>B'', str '' Two tables. ''] \<and>
   section_value ''explanation'' (str ''```sql\<newline>B``` Two tables. '') = Some []"
proof -
  have a: "\<not> sublist heading_line (str ''```mermaid\<newline>A```and```sql\<newline>B``` Two tables. '')"
    and b: "\<not> sublist heading_line (str ''```sql\<newline>B``` Two tables. '')"
    by (simp_all add: pattern_defs sublist_Cons_right)
  have sa: "split_fence [] (str ''```mermaid\<newline>A```and```sql\<newline>B``` Two tables. '') =
       [[], str ''mermaid\<newline>A'', str ''and'', str ''sql\<newline>B'', str '' Two tables. '']"
    and sb: "split_fence [] (str ''```sql\<newline>B``` Two tables. '') =
       [[], str ''sql\<newline>B'', str '' Two tables. '']"
    by (simp_all add: fence_def)
  have tr: "strip (str '' Two tables. '') = str ''Two tables.''"
    by (simp add: strip_def is_space_def)
  show ?thesis
    using a b sa sb tr explanation_without_heading[OF a] explanation_without_heading[OF b]
    by simp
qed

text \<open>
  C7. The explanation is to run from the heading to the next heading of the same level or
  to the end of the text. The pattern of the extractor stops in front of any line break
  that two hash signs follow, so a heading of a deeper level inside the explanation cuts
  it: the extractor gives the text in front of the deeper heading, not the text to the end.
\<close>

theorem deeper_heading_counterexample:
  "section_value ''explanation'' (str ''## Design Explanation\<newline>A\<newline>### B\<newline>C'')
     = Some (str ''A'') \<and>
   explanation_as_stated (str ''## Design Explanation\<newline>A\<newline>### B\<newline>C'')
     = Some (str ''A\<newline>### B\<newline>C'')"
  by (simp add: section_value_def eval_defs pattern_defs explanation_as_stated_def
      same_level_heading_follows_def heading_def)

section \<open>The round trip through the template\<close>

text \<open>
  C4. For a completion in the output format of the template, the extractor returns the
  three contents as they are. The contents are trimmed texts, the diagram and the SQL
  contain no fence and not the heading, and the explanation has no line that begins with
  two hash signs; \<open>X\<close>, \<open>Y\<close> and \<open>Z\<close> are such contents.
\<close>

theorem template_round_trip:
  assumes "strip X = X" "strip Y = Y" "strip Z = Z"
    and "\<not> sublist fence X" "\<not> sublist fence Y"
    and "\<not> sublist heading X" "\<not> sublist heading Y"
    and "\<not> sublist next_section Z"
  shows "extract_sections (template_completion X Y Z) =
           Inr [(''erd_mermaid'', X), (''sql_queries'', Y), (''explanation'', Z)]"
proof -
  let ?r = "template_completion X Y Z"
  have fence_X: "\<not> sublist fence ((X @ [10]) @ butlast fence)"
  proof
    assume "sublist fence ((X @ [10]) @ butlast fence)"
    then have "sublist fence (X @ 10 # butlast fence)" by simp
    then have "sublist fence (butlast fence)"
      using sublist_past_sep[of 10 fence fence X "butlast fence"] assms(4)
      by (simp add: fence_def)
    then show False by (simp add: fence_def sublist_Cons_right)
  qed
  have fence_Y: "\<not> sublist fence ((Y @ [10]) @ butlast fence)"
  proof
    assume "sublist fence ((Y @ [10]) @ butlast fence)"
    then have "sublist fence (Y @ 10 # butlast fence)" by simp
    then have "sublist fence (butlast fence)"
      using sublist_past_sep[of 10 fence fence Y "butlast fence"] assms(5)
      by (simp add: fence_def)
    then show False by (simp add: fence_def sublist_Cons_right)
  qed
  have m: "search_fenced mermaid_opener ?r = Some (X @ [10])"
  proof -
    have "\<not> sublist mermaid_opener (str ''## ERD (Mermaid)\<newline>'' @ butlast mermaid_opener)"
      by (simp add: mermaid_opener_def sublist_Cons_right)
    from search_fenced_block[OF this fence_X]
    show ?thesis by (simp add: template_completion_def pattern_defs)
  qed
  have s: "search_fenced sql_opener ?r = Some (Y @ [10])"
  proof -
    let ?pre = "str ''## ERD (Mermaid)\<newline>```mermaid\<newline>'' @ X @
                str ''\<newline>```\<newline>\<newline>## SQL Queries\<newline>''"
    have fs: "10 \<notin> set fence" "fence \<noteq> []" "prefix fence sql_opener"
      by (simp_all add: pattern_defs)
    have "\<not> sublist sql_opener (?pre @ butlast sql_opener)"
    proof
      assume "sublist sql_opener (?pre @ butlast sql_opener)"
      then have "sublist sql_opener
          (X @ 10 # str ''```\<newline>\<newline>## SQL Queries\<newline>'' @ butlast sql_opener)"
        by (simp add: sql_opener_def sublist_Cons_right)
      then have "sublist sql_opener
          (str ''```\<newline>\<newline>## SQL Queries\<newline>'' @ butlast sql_opener)"
        using assms(4) by (rule sublist_past_sep[OF fs, rotated])
      then show False by (simp add: sql_opener_def sublist_Cons_right)
    qed
    from search_fenced_block[OF this fence_Y]
    show ?thesis by (simp add: template_completion_def pattern_defs)
  qed
  have e: "search_explanation ?r = Some Z"
  proof -
    let ?mid = "str ''```\<newline>\<newline>## SQL Queries\<newline>```sql\<newline>''"
    let ?end = "str ''```\<newline>\<newline>''"
    let ?pre = "str ''## ERD (Mermaid)\<newline>```mermaid\<newline>'' @ X @ 10 # ?mid @ Y @ 10 # ?end"
    have hl: "10 \<notin> set heading" "heading \<noteq> []" "prefix heading heading_line"
      by (simp_all add: heading_def heading_line_def)
    have "\<not> sublist heading_line (?pre @ butlast heading_line)"
    proof
      assume "sublist heading_line (?pre @ butlast heading_line)"
      then have "sublist heading_line
          (X @ 10 # ?mid @ Y @ 10 # ?end @ butlast heading_line)"
        by (simp add: heading_line_def sublist_Cons_right)
      then have "sublist heading_line (?mid @ Y @ 10 # ?end @ butlast heading_line)"
        using assms(6) by (rule sublist_past_sep[OF hl, rotated])
      then have "sublist heading_line (Y @ 10 # ?end @ butlast heading_line)"
        by (simp add: heading_line_def sublist_Cons_right)
      then have "sublist heading_line (?end @ butlast heading_line)"
        using assms(7) by (rule sublist_past_sep[OF hl, rotated])
      then show False by (simp add: heading_line_def sublist_Cons_right)
    qed
    from search_explanation_first[OF this, of Z]
    show ?thesis
      using assms(8) by (simp add: template_completion_def pattern_defs lazy_until_section_all)
  qed
  show ?thesis
    using assms(1-3) by (simp add: extract_sections_fields m s e strip_line)
qed

theorem template_round_trip_witness:
  "extract_sections (template_completion (str ''X'') (str ''Y'') (str ''Z'')) =
     Inr [(''erd_mermaid'', str ''X''), (''sql_queries'', str ''Y''), (''explanation'', str ''Z'')]"
  by (rule template_round_trip)
    (simp_all add: strip_def is_space_def pattern_defs heading_def sublist_Cons_right)

section \<open>The prompt builder\<close>

lemma straddles_Cons: "straddles p xs ys \<Longrightarrow> straddles p (x # xs) ys"
  unfolding straddles_def by (blast intro: suffix_ConsI)

lemma count_occ_append:
  "\<not> straddles p xs ys \<Longrightarrow> count_occ p (xs @ ys) = count_occ p xs + count_occ p ys"
proof (induction xs)
  case Nil then show ?case by simp
next
  case (Cons x xs)
  have "prefix p (x # xs)" if "prefix p (x # xs @ ys)"
  proof -
    from that have "prefix p (x # xs) \<or> (\<exists>us. p = (x # xs) @ us \<and> prefix us ys)"
      using prefix_append[of p "x # xs" ys] by simp
    then show ?thesis
    proof
      assume "\<exists>us. p = (x # xs) @ us \<and> prefix us ys"
      then obtain us where us: "p = (x # xs) @ us" "prefix us ys" by blast
      show ?thesis
      proof (cases "us = []")
        case True with us show ?thesis by simp
      next
        case False
        with us have "straddles p (x # xs) ys"
          unfolding straddles_def by blast
        with Cons.prems show ?thesis by simp
      qed
    qed simp
  qed
  then have "prefix p (x # xs @ ys) \<longleftrightarrow> prefix p (x # xs)"
    using prefix_prefix[of p "x # xs" ys] by auto
  moreover have "\<not> straddles p xs ys"
    using Cons.prems straddles_Cons by blast
  ultimately show ?case using Cons.IH by simp
qed

lemma no_straddle_right:
  assumes "\<forall>v\<in>set (suffixes p). v \<noteq> [] \<longrightarrow> \<not> prefix v w \<and> \<not> prefix w v"
  shows "\<not> straddles p xs (w @ ys)"
proof
  assume "straddles p xs (w @ ys)"
  then obtain u v where uv: "p = u @ v" "v \<noteq> []" "prefix v (w @ ys)"
    unfolding straddles_def by blast
  then have "suffix v p" by (simp add: suffix_def)
  moreover from uv(3) have "prefix v w \<or> prefix w v"
    by (auto simp: prefix_append)
  ultimately show False using assms uv(2) by (auto simp: in_set_suffixes)
qed

lemma no_straddle_left:
  assumes "\<forall>u\<in>set (prefixes p). u \<noteq> [] \<longrightarrow> \<not> suffix u w \<and> \<not> suffix w u"
  shows "\<not> straddles p (zs @ w) ys"
proof
  assume "straddles p (zs @ w) ys"
  then obtain u v where uv: "p = u @ v" "u \<noteq> []" "suffix u (zs @ w)"
    unfolding straddles_def by blast
  then have "prefix u p" by simp
  moreover from uv(3) have "suffix u w \<or> suffix w u"
    by (auto simp: suffix_append)
  ultimately show False using assms uv(2) by (auto simp: in_set_prefixes)
qed

lemma sublist_iff_count_occ: "p \<noteq> [] \<Longrightarrow> sublist p s \<longleftrightarrow> 0 < count_occ p s"
  by (induction s) (auto simp: sublist_Cons_right)

lemma count_occ_before:
  assumes "starts_clear p w"
  shows "count_occ p (xs @ w @ ys) = count_occ p xs + count_occ p (w @ ys)"
  using assms no_straddle_right[of p w xs ys] count_occ_append[of p xs "w @ ys"]
  by (simp add: starts_clear_def)

lemma count_occ_before_prefix:
  assumes "starts_clear p w" "prefix w ys"
  shows "count_occ p (xs @ ys) = count_occ p xs + count_occ p ys"
proof -
  from assms(2) obtain zs where "ys = w @ zs" by (auto simp: prefix_def)
  then show ?thesis using count_occ_before[OF assms(1), of xs zs] by simp
qed

lemma count_occ_after:
  assumes "ends_clear p w" "suffix w xs"
  shows "count_occ p (xs @ ys) = count_occ p xs + count_occ p ys"
proof -
  from assms(2) obtain zs where "xs = zs @ w" by (auto simp: suffix_def)
  then show ?thesis
    using assms(1) no_straddle_left[of p w zs ys] count_occ_append[of p xs ys]
    by (simp add: ends_clear_def)
qed

lemma last_not_in_no_straddle:
  assumes "l \<noteq> []" "last l \<notin> set p"
  shows "\<not> straddles p l ys"
proof
  assume "straddles p l ys"
  then obtain u v where uv: "p = u @ v" "u \<noteq> []" "suffix u l"
    unfolding straddles_def by blast
  then have "last u = last l" by (auto simp: suffix_def)
  moreover have "last u \<in> set p" using uv(1,2) by simp
  ultimately show False using assms(2) by simp
qed

lemma count_occ_concat:
  assumes "lines_end_with c ls" "c \<notin> set p"
  shows "count_occ p (concat ls) = sum_list (map (count_occ p) ls)"
  using assms
proof (induction c ls rule: lines_end_with.induct)
  case (3 c l l' ls)
  then have l: "l \<noteq> []" "last l \<notin> set p" by auto
  have "count_occ p (l @ concat (l' # ls)) = count_occ p l + count_occ p (concat (l' # ls))"
    using l by (intro count_occ_append last_not_in_no_straddle)
  with 3 show ?case by simp
qed simp_all

lemma prompt_format_concat: "prompt_format = concat prompt_format_lines"
  unfolding prompt_format_def prompt_format_lines_def
  by (simp only: concat.simps append_Nil2)

lemma prompt_format_lines_end: "lines_end_with 10 prompt_format_lines"
  by (simp add: prompt_format_lines_def)

lemma count_format: "count_occ mermaid_tag prompt_format = 1" "count_occ sql_tag prompt_format = 1" "count_occ heading prompt_format = 1"
  unfolding prompt_format_concat
  by (subst count_occ_concat[OF prompt_format_lines_end]; simp add: tag_defs prompt_format_lines_def)+

lemma suffix_intro: "suffix (str ''Application Description: '') prompt_intro"
  unfolding prompt_intro_def by (intro suffix_appendI) simp

lemma suffix_before_type: "suffix (str ''Database Type: '') prompt_before_type"
  unfolding prompt_before_type_def by (intro suffix_appendI) simp

lemma suffix_format: "suffix (str ''Focus on best practices for '') prompt_format"
  unfolding prompt_format_def by (intro suffix_appendI) simp

lemma prefix_before_type: "prefix [10] (prompt_before_type @ s)"
  by (simp add: prompt_before_type_def)

lemma prefix_format: "prefix [10] (prompt_format @ s)"
  unfolding prompt_format_def by simp

lemma count_occ_prompt:
  assumes "ends_clear p (str ''Application Description: '')"
    and "ends_clear p (str ''Database Type: '')"
    and "ends_clear p (str ''Focus on best practices for '')"
    and "starts_clear p [10]"
    and "starts_clear p prompt_closing"
  shows "count_occ p (create_database_design_prompt d t) =
           count_occ p prompt_intro + count_occ p d + count_occ p prompt_before_type +
           count_occ p t + count_occ p prompt_format + count_occ p t + count_occ p prompt_closing"
proof -
  have "count_occ p (t @ prompt_closing) = count_occ p t + count_occ p prompt_closing"
    using assms(5) by (rule count_occ_before_prefix) simp
  moreover have "count_occ p (prompt_format @ t @ prompt_closing) =
      count_occ p prompt_format + count_occ p (t @ prompt_closing)"
    using assms(3) suffix_format by (rule count_occ_after)
  moreover have "count_occ p (t @ prompt_format @ t @ prompt_closing) =
      count_occ p t + count_occ p (prompt_format @ t @ prompt_closing)"
    using assms(4) prefix_format by (rule count_occ_before_prefix)
  moreover have "count_occ p (prompt_before_type @ t @ prompt_format @ t @ prompt_closing) =
      count_occ p prompt_before_type + count_occ p (t @ prompt_format @ t @ prompt_closing)"
    using assms(2) suffix_before_type by (rule count_occ_after)
  moreover have
    "count_occ p (d @ prompt_before_type @ t @ prompt_format @ t @ prompt_closing) =
      count_occ p d + count_occ p (prompt_before_type @ t @ prompt_format @ t @ prompt_closing)"
    using assms(4) prefix_before_type by (rule count_occ_before_prefix)
  moreover have
    "count_occ p (prompt_intro @ d @ prompt_before_type @ t @ prompt_format @ t @ prompt_closing) =
      count_occ p prompt_intro +
      count_occ p (d @ prompt_before_type @ t @ prompt_format @ t @ prompt_closing)"
    using assms(1) suffix_intro by (rule count_occ_after)
  ultimately show ?thesis
    by (simp add: create_database_design_prompt_def)
qed

lemma clear_mermaid:
  "ends_clear mermaid_tag (str ''Application Description: '')"
  "ends_clear mermaid_tag (str ''Database Type: '')"
  "ends_clear mermaid_tag (str ''Focus on best practices for '')"
  "starts_clear mermaid_tag [10]"
  "starts_clear mermaid_tag prompt_closing"
  by (simp_all add: ends_clear_def starts_clear_def mermaid_tag_def prompt_closing_def suffix_to_prefix)

lemma clear_sql:
  "ends_clear sql_tag (str ''Application Description: '')"
  "ends_clear sql_tag (str ''Database Type: '')"
  "ends_clear sql_tag (str ''Focus on best practices for '')"
  "starts_clear sql_tag [10]"
  "starts_clear sql_tag prompt_closing"
  by (simp_all add: ends_clear_def starts_clear_def sql_tag_def prompt_closing_def suffix_to_prefix)

lemma clear_heading:
  "ends_clear heading (str ''Application Description: '')"
  "ends_clear heading (str ''Database Type: '')"
  "ends_clear heading (str ''Focus on best practices for '')"
  "starts_clear heading [10]"
  "starts_clear heading prompt_closing"
  by (simp_all add: ends_clear_def starts_clear_def heading_def prompt_closing_def suffix_to_prefix)

lemma count_fixed_parts:
  "count_occ mermaid_tag prompt_intro = 0" "count_occ sql_tag prompt_intro = 0"
  "count_occ heading prompt_intro = 0"
  "count_occ mermaid_tag prompt_before_type = 0" "count_occ sql_tag prompt_before_type = 0"
  "count_occ heading prompt_before_type = 0"
  "count_occ mermaid_tag prompt_closing = 0" "count_occ sql_tag prompt_closing = 0"
  "count_occ heading prompt_closing = 0"
  by (simp_all add: tag_defs prompt_intro_def prompt_before_type_def prompt_closing_def)

lemma count_occ_prompt_markers:
  "count_occ mermaid_tag (create_database_design_prompt d t) =
     1 + count_occ mermaid_tag d + 2 * count_occ mermaid_tag t"
  "count_occ sql_tag (create_database_design_prompt d t) =
     1 + count_occ sql_tag d + 2 * count_occ sql_tag t"
  "count_occ heading (create_database_design_prompt d t) =
     1 + count_occ heading d + 2 * count_occ heading t"
  using count_occ_prompt[OF clear_mermaid, of d t] count_occ_prompt[OF clear_sql, of d t]
    count_occ_prompt[OF clear_heading, of d t]
  by (simp_all add: count_fixed_parts count_format)

text \<open>
  C5, as the code has it. The prompt contains the description and the dialect as they
  are. Each of the two fence tags and the heading occurs once in the fixed text of the
  template, once more for every occurrence in the description and twice more for every
  occurrence in the dialect, which the template embeds twice. So a marker occurs exactly
  once if and only if neither the description nor the dialect contains it.
\<close>

theorem prompt_marker_counts:
  "sublist d (create_database_design_prompt d t) \<and>
   sublist t (create_database_design_prompt d t) \<and>
   count_occ mermaid_tag (create_database_design_prompt d t) =
     1 + count_occ mermaid_tag d + 2 * count_occ mermaid_tag t \<and>
   count_occ sql_tag (create_database_design_prompt d t) =
     1 + count_occ sql_tag d + 2 * count_occ sql_tag t \<and>
   count_occ heading (create_database_design_prompt d t) =
     1 + count_occ heading d + 2 * count_occ heading t"
proof -
  have "sublist d (create_database_design_prompt d t)"
    unfolding create_database_design_prompt_def by (rule sublist_appendI)
  moreover have "sublist t (create_database_design_prompt d t)"
    unfolding create_database_design_prompt_def
    using sublist_appendI[of t "prompt_intro @ d @ prompt_before_type"] by simp
  ultimately show ?thesis
    using count_occ_prompt_markers[of d t] by simp
qed

theorem prompt_marker_counts_witness:
  "count_occ mermaid_tag (create_database_design_prompt (str ''a shop'') (str ''MySQL'')) = 1 \<and>
   count_occ sql_tag (create_database_design_prompt (str ''a shop'') (str ''MySQL'')) = 1 \<and>
   count_occ heading (create_database_design_prompt (str ''a shop'') (str ''MySQL'')) = 1"
  using prompt_marker_counts[of "str ''a shop''" "str ''MySQL''"]
  by (simp add: tag_defs)

text \<open>
  C5, as stated, fails: a description that is the heading itself is embedded as it is,
  and the prompt then contains the heading twice.
\<close>

theorem heading_twice_counterexample:
  "count_occ heading
     (create_database_design_prompt (str ''## Design Explanation'') (str ''MySQL'')) = 2"
  unfolding count_occ_prompt_markers by (simp add: heading_def)

section \<open>The endpoints\<close>

text \<open>
  C9. When the query of the model list fails, \<open>get_available_models\<close> returns a normal
  reply that carries the message that the backend could not be reached; no exception leaves
  the operation.
\<close>

theorem list_models_unavailable:
  "get_available_models TagsRequestFailed =
     Inr (ModelsError (str ''Could not connect to Ollama. Make sure it's running.''))"
  by (simp add: get_available_models_def)

text \<open>
  C3. When the backend answers the design prompt with the empty text, \<open>design_database\<close>
  raises a status 500 exception: the result is an error, not a response.
\<close>

theorem empty_completion_is_error:
  assumes "post MODEL_NAME
             (create_database_design_prompt (description request) (database_type request))
           = Inr []"
  shows "design_database exc_str post request =
           Inl (HTTPException 500 (str ''Error generating database design: '' @
                  exc_str (HTTPException 500 (str ''Empty response from LLM''))))"
  using assms by (simp add: design_database_def design_database_try_def query_ollama_def)

theorem empty_completion_is_error_witness:
  "design_database (\<lambda>e. []) (\<lambda>model prompt. Inr [])
      \<lparr>description = str ''a shop'', database_type = str ''MySQL''\<rparr>
   = Inl (HTTPException 500 (str ''Error generating database design: ''))"
  using empty_completion_is_error
    [of "\<lambda>model prompt. Inr []"
        "\<lparr>description = str ''a shop'', database_type = str ''MySQL''\<rparr>" "\<lambda>e. []"]
  by simp

text \<open>
  For a completion that is not empty the operation always answers, and with the values
  of the extractor: the three keys are always in its dictionary, so \<open>sections.get\<close>
  never gives its default, neither a placeholder nor the completion.
\<close>

lemma design_database_fields:
  assumes "post MODEL_NAME
             (create_database_design_prompt (description request) (database_type request))
           = Inr response"
    and "response \<noteq> []"
  shows "design_database exc_str post request =
           Inr \<lparr>erd_mermaid =
                  (case search_fenced mermaid_opener response of
                     Some g \<Rightarrow> strip g | None \<Rightarrow> []),
                sql_queries =
                  (case search_fenced sql_opener response of
                     Some g \<Rightarrow> strip g | None \<Rightarrow> []),
                explanation =
                  (case search_explanation response of
                     Some g \<Rightarrow> strip g
                   | None \<Rightarrow>
                       if 5 \<le> length (split_fence [] response)
                       then strip (last (split_fence [] response)) else [])\<rparr>"
  using assms
  by (simp add: design_database_def design_database_try_def query_ollama_def
      extract_sections_fields dict_get_def response_of_dict_def Let_def)

text \<open>
  C1. A completion with a diagram block and the explanation heading but no SQL block:
  the response carries the empty text in \<open>sql_queries\<close>, not the text
  \<open>Could not extract SQL queries\<close>.
\<close>

theorem missing_sql_block_gives_empty_field:
  "design_database exc_str
      (\<lambda>model prompt.
         Inr (str ''```mermaid\<newline>X\<newline>```\<newline>## Design Explanation\<newline>Z''))
      \<lparr>description = str ''a shop'', database_type = str ''MySQL''\<rparr>
   = Inr \<lparr>erd_mermaid = str ''X'', sql_queries = [], explanation = str ''Z''\<rparr>"
  by (simp add: eval_defs pattern_defs)

text \<open>
  C2. A completion of plain prose, without fence and without heading: the response
  carries three empty fields; \<open>explanation\<close> is the empty text and not the completion.
\<close>

theorem plain_prose_gives_empty_fields:
  "design_database exc_str (\<lambda>model prompt. Inr (str ''plain prose''))
      \<lparr>description = str ''a shop'', database_type = str ''MySQL''\<rparr>
   = Inr \<lparr>erd_mermaid = [], sql_queries = [], explanation = []\<rparr>"
  by (simp add: eval_defs pattern_defs)

end
